theory Spec2Isabelle
  imports Main "HOL-Library.Sublist"
begin

section \<open>Workflow validation of scripts/validate-github-actions.py\<close>

text \<open>
  The script loads a workflow file with \<^verbatim>\<open>yaml.safe_load\<close>, walks the loaded Python
  value with \<^verbatim>\<open>in\<close>, \<^verbatim>\<open>.keys()\<close>, \<^verbatim>\<open>.items()\<close>, \<^verbatim>\<open>[...]\<close>, \<^verbatim>\<open>enumerate\<close> and \<^verbatim>\<open>.get\<close>,
  appends one message per finding to the list \<^verbatim>\<open>issues\<close>, and returns the pair
  \<^verbatim>\<open>(True, issues)\<close>. The whole body sits in one \<^verbatim>\<open>try\<close>: any exception is turned into
  \<^verbatim>\<open>(False, [message])\<close>. The embedding keeps this shape: Python values are a datatype,
  every operation that can raise returns a sum, the three loops are recursive functions
  threading the list of issues.
\<close>

subsection \<open>Python values\<close>

text \<open>
  What \<^verbatim>\<open>yaml.safe_load\<close> builds: \<^verbatim>\<open>None\<close>, \<^verbatim>\<open>bool\<close>, \<^verbatim>\<open>int\<close>, \<^verbatim>\<open>str\<close>, \<^verbatim>\<open>bytes\<close> (from
  \<^verbatim>\<open>!!binary\<close>), \<^verbatim>\<open>list\<close>, \<^verbatim>\<open>tuple\<close> (the elements of \<^verbatim>\<open>!!omap\<close> and \<^verbatim>\<open>!!pairs\<close> lists), \<^verbatim>\<open>set\<close>
  (from \<^verbatim>\<open>!!set\<close>, here the list of its elements in the order in which the set iterates),
  \<^verbatim>\<open>dict\<close> (insertion ordered, here an association list in declaration order), and the
  remaining leaves (\<^verbatim>\<open>float\<close>, \<^verbatim>\<open>datetime.date\<close>, \<^verbatim>\<open>datetime.datetime\<close>). The validator does
  no arithmetic: of such a leaf it can only observe the type name (in an exception
  message) and the texts of \<^verbatim>\<open>str()\<close> and \<^verbatim>\<open>repr()\<close>, which \<open>POther\<close> carries in this order.
  Values that contain themselves through an alias are not modelled. A \<open>string\<close> stands
  for a Python \<^verbatim>\<open>str\<close> whose code points are below 256, one \<open>char\<close> per code point, and in
  \<open>PBytes\<close> for the bytes.

  An exception carries the text that \<^verbatim>\<open>str(e)\<close> gives, in the wording of CPython 3.11 to
  3.13; for \<^verbatim>\<open>KeyError\<close> it carries the key.
\<close>

datatype pyval =
    PNone
  | PBool bool
  | PInt int
  | POther string string string
  | PStr string
  | PBytes string
  | PList "pyval list"
  | PTuple "pyval list"
  | PSet "pyval list"
  | PDict "(pyval \<times> pyval) list"

datatype exn =
    TypeError string
  | AttributeError string
  | KeyError string
  | ValueError string

definition quote :: string where
  "quote = [CHR 0x27]"

fun type_name :: "pyval \<Rightarrow> string" where
  "type_name PNone = ''NoneType''"
| "type_name (PBool b) = ''bool''"
| "type_name (PInt i) = ''int''"
| "type_name (POther ty s r) = ty"
| "type_name (PStr s) = ''str''"
| "type_name (PBytes b) = ''bytes''"
| "type_name (PList xs) = ''list''"
| "type_name (PTuple xs) = ''tuple''"
| "type_name (PSet xs) = ''set''"
| "type_name (PDict kvs) = ''dict''"

subsection \<open>Text of a value: \<^verbatim>\<open>str()\<close>, \<^verbatim>\<open>repr()\<close>, \<^verbatim>\<open>str.lower()\<close>\<close>

definition digit_char :: "nat \<Rightarrow> char" where
  "digit_char n = char_of (48 + n)"

fun str_nat :: "nat \<Rightarrow> string" where
  "str_nat n = (if n < 10 then [digit_char n] else str_nat (n div 10) @ [digit_char (n mod 10)])"

declare str_nat.simps [simp del]

definition str_int :: "int \<Rightarrow> string" where
  "str_int i = (if i < 0 then CHR ''-'' # str_nat (nat (- i)) else str_nat (nat i))"

definition hex_char :: "nat \<Rightarrow> char" where
  "hex_char n = (if n < 10 then char_of (48 + n) else char_of (87 + n))"

text \<open>
  \<^verbatim>\<open>str.isprintable\<close> on the code points below 256, and what \<^verbatim>\<open>repr\<close> of a \<^verbatim>\<open>bytes\<close> leaves
  unescaped.
\<close>

definition printable :: "char \<Rightarrow> bool" where
  "printable c = (let n = (of_char c :: nat) in (32 \<le> n \<and> n < 127) \<or> (161 \<le> n \<and> n \<noteq> 173))"

definition printable_byte :: "char \<Rightarrow> bool" where
  "printable_byte c = (let n = (of_char c :: nat) in 32 \<le> n \<and> n < 127)"

definition repr_char :: "(char \<Rightarrow> bool) \<Rightarrow> char \<Rightarrow> char \<Rightarrow> string" where
  "repr_char shown q c =
     (if c = q \<or> c = CHR 0x5C then [CHR 0x5C, c]
      else if c = CHR 0x09 then [CHR 0x5C, CHR ''t'']
      else if c = CHR 0x0A then [CHR 0x5C, CHR ''n'']
      else if c = CHR 0x0D then [CHR 0x5C, CHR ''r'']
      else if shown c then [c]
      else [CHR 0x5C, CHR ''x'', hex_char ((of_char c :: nat) div 16), hex_char ((of_char c :: nat) mod 16)])"

definition repr_quoted :: "(char \<Rightarrow> bool) \<Rightarrow> string \<Rightarrow> string" where
  "repr_quoted shown s =
     (let q = (if CHR 0x27 \<in> set s \<and> CHR 0x22 \<notin> set s then CHR 0x22 else CHR 0x27)
      in q # concat (map (repr_char shown q) s) @ [q])"

definition repr_str :: "string \<Rightarrow> string" where
  "repr_str s = repr_quoted printable s"

definition repr_bytes :: "string \<Rightarrow> string" where
  "repr_bytes b = CHR ''b'' # repr_quoted printable_byte b"

fun join :: "string \<Rightarrow> string list \<Rightarrow> string" where
  "join sep [] = []"
| "join sep [x] = x"
| "join sep (x # y # ys) = x @ sep @ join sep (y # ys)"

text \<open>
  The text of \<^verbatim>\<open>repr(v)\<close>, when \<^verbatim>\<open>repr\<close> does not raise (for an \<^verbatim>\<open>int\<close>: its decimal digits).
\<close>

fun py_repr :: "pyval \<Rightarrow> string" where
  "py_repr PNone = ''None''"
| "py_repr (PBool b) = (if b then ''True'' else ''False'')"
| "py_repr (PInt i) = str_int i"
| "py_repr (POther ty s r) = r"
| "py_repr (PStr s) = repr_str s"
| "py_repr (PBytes b) = repr_bytes b"
| "py_repr (PList xs) = ''['' @ join '', '' (map py_repr xs) @ '']''"
| "py_repr (PTuple xs) =
     (if length xs = 1 then ''('' @ join '', '' (map py_repr xs) @ '',)''
      else ''('' @ join '', '' (map py_repr xs) @ '')'')"
| "py_repr (PSet xs) =
     (if xs = [] then ''set()'' else ''{'' @ join '', '' (map py_repr xs) @ ''}'')"
| "py_repr (PDict kvs) =
     ''{'' @ join '', '' (map (\<lambda>kv. py_repr (fst kv) @ '': '' @ py_repr (snd kv)) kvs) @ ''}''"

text \<open>The text of \<^verbatim>\<open>str(v)\<close>, when \<^verbatim>\<open>str\<close> does not raise.\<close>

fun py_text :: "pyval \<Rightarrow> string" where
  "py_text (PStr s) = s"
| "py_text (POther ty s r) = s"
| "py_text v = py_repr v"

text \<open>
  Since CPython 3.11 the conversion of an \<^verbatim>\<open>int\<close> to decimal text raises \<^verbatim>\<open>ValueError\<close> when
  the absolute value has more than 4300 digits, that is, from \<open>10 ^ 4300\<close> on. (The loader
  builds such an \<^verbatim>\<open>int\<close> from a hexadecimal scalar.) \<^verbatim>\<open>repr\<close> of a container converts its
  elements, so it raises when one of them does; \<^verbatim>\<open>str\<close> of a \<^verbatim>\<open>str\<close> converts nothing.
\<close>

definition int_str_bound :: int where
  "int_str_bound = 10 ^ 4300"

definition int_limit_exceeded :: exn where
  "int_limit_exceeded =
     ValueError (''Exceeds the limit (4300 digits) for integer string conversion; '' @
                 ''use sys.set_int_max_str_digits() to increase the limit'')"

fun repr_raises :: "pyval \<Rightarrow> bool" where
  "repr_raises (PInt i) = (int_str_bound \<le> \<bar>i\<bar>)"
| "repr_raises (PList xs) = list_ex repr_raises xs"
| "repr_raises (PTuple xs) = list_ex repr_raises xs"
| "repr_raises (PSet xs) = list_ex repr_raises xs"
| "repr_raises (PDict kvs) = list_ex (\<lambda>kv. repr_raises (fst kv) \<or> repr_raises (snd kv)) kvs"
| "repr_raises v = False"

text \<open>\<^verbatim>\<open>str(v)\<close>, and the value of a replacement field \<^verbatim>\<open>{v}\<close> of an f-string.\<close>

definition py_str :: "pyval \<Rightarrow> exn + string" where
  "py_str v = (if repr_raises v then Inl int_limit_exceeded else Inr (py_text v))"

definition lower_char :: "char \<Rightarrow> char" where
  "lower_char c =
     (let n = (of_char c :: nat)
      in if (65 \<le> n \<and> n \<le> 90) \<or> (192 \<le> n \<and> n \<le> 222 \<and> n \<noteq> 215) then char_of (n + 32) else c)"

definition lower :: "string \<Rightarrow> string" where
  "lower s = map lower_char s"

fun str_exn :: "exn \<Rightarrow> string" where
  "str_exn (TypeError m) = m"
| "str_exn (AttributeError m) = m"
| "str_exn (KeyError k) = repr_str k"
| "str_exn (ValueError m) = m"

subsection \<open>The operations the validator applies to a loaded value\<close>

text \<open>
  \<^verbatim>\<open>'lit' in x\<close>: key membership for a dict, element membership for a list, a tuple and
  a set, substring test for a str, \<^verbatim>\<open>TypeError\<close> for every other value. A str literal
  equals only a str.
\<close>

fun py_contains :: "string \<Rightarrow> pyval \<Rightarrow> exn + bool" where
  "py_contains lit (PDict kvs) = Inr (PStr lit \<in> set (map fst kvs))"
| "py_contains lit (PList xs) = Inr (PStr lit \<in> set xs)"
| "py_contains lit (PTuple xs) = Inr (PStr lit \<in> set xs)"
| "py_contains lit (PSet xs) = Inr (PStr lit \<in> set xs)"
| "py_contains lit (PStr s) = Inr (sublist lit s)"
| "py_contains lit (PBytes b) =
     Inl (TypeError (''a bytes-like object is required, not '' @ quote @ ''str'' @ quote))"
| "py_contains lit v =
     Inl (TypeError (''argument of type '' @ quote @ type_name v @ quote @ '' is not iterable''))"

definition no_attribute :: "pyval \<Rightarrow> string \<Rightarrow> exn" where
  "no_attribute v a =
     AttributeError (quote @ type_name v @ quote @ '' object has no attribute '' @ quote @ a @ quote)"

fun py_keys :: "pyval \<Rightarrow> exn + pyval list" where
  "py_keys (PDict kvs) = Inr (map fst kvs)"
| "py_keys v = Inl (no_attribute v ''keys'')"

fun py_items :: "pyval \<Rightarrow> exn + (pyval \<times> pyval) list" where
  "py_items (PDict kvs) = Inr kvs"
| "py_items v = Inl (no_attribute v ''items'')"

text \<open>\<^verbatim>\<open>x.get('lit', default)\<close>\<close>

fun py_get :: "pyval \<Rightarrow> string \<Rightarrow> pyval \<Rightarrow> exn + pyval" where
  "py_get (PDict kvs) lit d = Inr (case map_of kvs (PStr lit) of None \<Rightarrow> d | Some v \<Rightarrow> v)"
| "py_get v lit d = Inl (no_attribute v ''get'')"

text \<open>\<^verbatim>\<open>x['lit']\<close>\<close>

fun py_getitem :: "pyval \<Rightarrow> string \<Rightarrow> exn + pyval" where
  "py_getitem (PDict kvs) lit =
     (case map_of kvs (PStr lit) of None \<Rightarrow> Inl (KeyError lit) | Some v \<Rightarrow> Inr v)"
| "py_getitem (PList xs) lit =
     Inl (TypeError ''list indices must be integers or slices, not str'')"
| "py_getitem (PTuple xs) lit =
     Inl (TypeError ''tuple indices must be integers or slices, not str'')"
| "py_getitem (PBytes b) lit =
     Inl (TypeError ''byte indices must be integers or slices, not str'')"
| "py_getitem (PStr s) lit =
     Inl (TypeError (''string indices must be integers, not '' @ quote @ ''str'' @ quote))"
| "py_getitem v lit =
     Inl (TypeError (quote @ type_name v @ quote @ '' object is not subscriptable''))"

text \<open>What \<^verbatim>\<open>for ... in x\<close> and \<^verbatim>\<open>enumerate(x)\<close> run through.\<close>

fun py_iter :: "pyval \<Rightarrow> exn + pyval list" where
  "py_iter (PList xs) = Inr xs"
| "py_iter (PTuple xs) = Inr xs"
| "py_iter (PSet xs) = Inr xs"
| "py_iter (PDict kvs) = Inr (map fst kvs)"
| "py_iter (PStr s) = Inr (map (\<lambda>c. PStr [c]) s)"
| "py_iter (PBytes b) = Inr (map (\<lambda>c. PInt (of_char c)) b)"
| "py_iter v = Inl (TypeError (quote @ type_name v @ quote @ '' object is not iterable''))"

subsection \<open>The messages\<close>

definition missing_name :: string where
  "missing_name = ''Missing 'name' field''"

definition missing_on :: string where
  "missing_on = ''Missing 'on' field (triggers)''"

definition missing_jobs :: string where
  "missing_jobs = ''Missing 'jobs' field''"

text \<open>
  The f-strings of lines 41, 44, 49 and 52. The replacement fields are evaluated and
  converted from left to right, so on line 52 the job name is converted before
  \<^verbatim>\<open>step.get\<close> is called. \<open>job_prefix\<close> is how each of these messages starts.
\<close>

definition job_prefix :: "pyval \<Rightarrow> string" where
  "job_prefix job_name = ''Job '' @ quote @ py_text job_name @ quote"

definition job_missing_runs_on :: "pyval \<Rightarrow> exn + string" where
  "job_missing_runs_on job_name =
     (case py_str job_name of Inl e \<Rightarrow> Inl e | Inr n \<Rightarrow>
        Inr (''Job '' @ quote @ n @ quote @ '' missing 'runs-on' field''))"

definition job_missing_steps :: "pyval \<Rightarrow> exn + string" where
  "job_missing_steps job_name =
     (case py_str job_name of Inl e \<Rightarrow> Inl e | Inr n \<Rightarrow>
        Inr (''Job '' @ quote @ n @ quote @ '' missing 'steps' field''))"

definition step_missing_name :: "pyval \<Rightarrow> nat \<Rightarrow> exn + string" where
  "step_missing_name job_name i =
     (case py_str job_name of Inl e \<Rightarrow> Inl e | Inr n \<Rightarrow>
        Inr (''Job '' @ quote @ n @ quote @ '' step '' @ str_nat (i + 1) @ '' missing 'name' field''))"

definition step_missing_uses_or_run :: "pyval \<Rightarrow> pyval \<Rightarrow> nat \<Rightarrow> exn + string" where
  "step_missing_uses_or_run job_name step i =
     (case py_str job_name of Inl e \<Rightarrow> Inl e | Inr n \<Rightarrow>
        (case py_get step ''name'' (PStr (str_nat (i + 1))) of Inl e \<Rightarrow> Inl e | Inr label \<Rightarrow>
           (case py_str label of Inl e \<Rightarrow> Inl e | Inr l \<Rightarrow>
              Inr (''Job '' @ quote @ n @ quote @ '' step '' @ quote @ l @ quote @
                   '' missing 'uses' or 'run' field''))))"

text \<open>\<^verbatim>\<open>issues.append(f"...")\<close>: the message is built, which may raise, then appended.\<close>

definition append_issue :: "string list \<Rightarrow> exn + string \<Rightarrow> exn + string list" where
  "append_issue issues message =
     (case message of Inl e \<Rightarrow> Inl e | Inr m \<Rightarrow> Inr (issues @ [m]))"

subsection \<open>validate_github_actions_workflow\<close>

text \<open>
  Lines 26-29: \<^verbatim>\<open>for key in workflow.keys(): if str(key).lower() == 'on' or key is True\<close>,
  with the \<^verbatim>\<open>break\<close> at the first key accepted; \<^verbatim>\<open>str(key)\<close> is evaluated for every key the
  loop comes to.
\<close>

fun has_on_field :: "pyval list \<Rightarrow> exn + bool" where
  "has_on_field [] = Inr False"
| "has_on_field (key # keys) =
     (case py_str key of Inl e \<Rightarrow> Inl e | Inr s \<Rightarrow>
        if lower s = ''on'' \<or> key = PBool True then Inr True else has_on_field keys)"

text \<open>Lines 48-52, the body of the loop over the steps; \<open>i\<close> is the index \<^verbatim>\<open>enumerate\<close> gives.\<close>

definition check_step :: "pyval \<Rightarrow> nat \<Rightarrow> pyval \<Rightarrow> string list \<Rightarrow> exn + string list" where
  "check_step job_name i step issues =
     (case py_contains ''name'' step of Inl e \<Rightarrow> Inl e | Inr has_name \<Rightarrow>
        (case (if \<not> has_name then append_issue issues (step_missing_name job_name i)
               else Inr issues) of Inl e \<Rightarrow> Inl e | Inr issues1 \<Rightarrow>
           (case py_contains ''uses'' step of Inl e \<Rightarrow> Inl e | Inr has_uses \<Rightarrow>
              if has_uses then Inr issues1
              else (case py_contains ''run'' step of Inl e \<Rightarrow> Inl e | Inr has_run \<Rightarrow>
                if has_run then Inr issues1
                else append_issue issues1 (step_missing_uses_or_run job_name step i)))))"

fun steps_loop :: "pyval \<Rightarrow> nat \<Rightarrow> pyval list \<Rightarrow> string list \<Rightarrow> exn + string list" where
  "steps_loop job_name i [] issues = Inr issues"
| "steps_loop job_name i (step # rest) issues =
     (case check_step job_name i step issues of Inl e \<Rightarrow> Inl e
      | Inr issues1 \<Rightarrow> steps_loop job_name (Suc i) rest issues1)"

text \<open>Lines 40-52, the body of the loop over \<^verbatim>\<open>workflow['jobs'].items()\<close>.\<close>

definition check_job :: "pyval \<Rightarrow> pyval \<Rightarrow> string list \<Rightarrow> exn + string list" where
  "check_job job_name job_config issues =
     (case py_contains ''runs-on'' job_config of Inl e \<Rightarrow> Inl e | Inr has_runs_on \<Rightarrow>
        (case (if \<not> has_runs_on then append_issue issues (job_missing_runs_on job_name)
               else Inr issues) of Inl e \<Rightarrow> Inl e | Inr issues1 \<Rightarrow>
           (case py_contains ''steps'' job_config of Inl e \<Rightarrow> Inl e | Inr has_steps \<Rightarrow>
              if \<not> has_steps then append_issue issues1 (job_missing_steps job_name)
              else (case py_getitem job_config ''steps'' of Inl e \<Rightarrow> Inl e | Inr steps \<Rightarrow>
                (case py_iter steps of Inl e \<Rightarrow> Inl e | Inr xs \<Rightarrow>
                   steps_loop job_name 0 xs issues1)))))"

fun jobs_loop :: "(pyval \<times> pyval) list \<Rightarrow> string list \<Rightarrow> exn + string list" where
  "jobs_loop [] issues = Inr issues"
| "jobs_loop ((job_name, job_config) # rest) issues =
     (case check_job job_name job_config issues of Inl e \<Rightarrow> Inl e
      | Inr issues1 \<Rightarrow> jobs_loop rest issues1)"

text \<open>
  Lines 18-54, the rules applied to the loaded value. The test \<^verbatim>\<open>'jobs' in workflow\<close> is
  made twice, on line 34 and on line 38.
\<close>

definition check_workflow :: "pyval \<Rightarrow> exn + string list" where
  "check_workflow workflow =
     (case py_contains ''name'' workflow of Inl e \<Rightarrow> Inl e | Inr has_name \<Rightarrow>
        let issues1 = (if \<not> has_name then [missing_name] else []) in
        (case py_keys workflow of Inl e \<Rightarrow> Inl e | Inr keys \<Rightarrow>
           (case has_on_field keys of Inl e \<Rightarrow> Inl e | Inr has_on \<Rightarrow>
              let issues2 = (if \<not> has_on then issues1 @ [missing_on] else issues1) in
              (case py_contains ''jobs'' workflow of Inl e \<Rightarrow> Inl e | Inr has_jobs \<Rightarrow>
                 let issues3 = (if \<not> has_jobs then issues2 @ [missing_jobs] else issues2) in
                 (case py_contains ''jobs'' workflow of Inl e \<Rightarrow> Inl e | Inr has_jobs_again \<Rightarrow>
                    if has_jobs_again
                    then (case py_getitem workflow ''jobs'' of Inl e \<Rightarrow> Inl e | Inr jobs \<Rightarrow>
                      (case py_items jobs of Inl e \<Rightarrow> Inl e | Inr items \<Rightarrow>
                         jobs_loop items issues3))
                    else Inr issues3)))))"

text \<open>
  Lines 15-16 and 56-59. Opening and loading the file either gives a value, or raises
  \<^verbatim>\<open>yaml.YAMLError\<close>, or raises something else (the file cannot be read or decoded); the
  string is the exception's text.
\<close>

datatype load_outcome =
    Loaded pyval
  | YAMLError string
  | ReadError string

definition validate_github_actions_workflow :: "load_outcome \<Rightarrow> bool \<times> string list" where
  "validate_github_actions_workflow f =
     (case f of
        YAMLError m \<Rightarrow> (False, [''YAML syntax error: '' @ m])
      | ReadError m \<Rightarrow> (False, [''Error reading file: '' @ m])
      | Loaded workflow \<Rightarrow>
          (case check_workflow workflow of
             Inl e \<Rightarrow> (False, [''Error reading file: '' @ str_exn e])
           | Inr issues \<Rightarrow> (True, issues)))"

subsection \<open>main\<close>

text \<open>
  Lines 88-103: the loop over the files counts the valid and the invalid ones; lines
  81-83 and 108-113 give the exit status. \<open>main\<close> takes what loading each discovered
  file gives, in the sorted order of the paths.
\<close>

fun count_loop :: "(bool \<times> string list) list \<Rightarrow> nat \<times> nat \<Rightarrow> nat \<times> nat" where
  "count_loop [] (valid_count, invalid_count) = (valid_count, invalid_count)"
| "count_loop ((is_valid, issues) # rest) (valid_count, invalid_count) =
     (if is_valid \<and> issues = [] then count_loop rest (valid_count + 1, invalid_count)
      else count_loop rest (valid_count, invalid_count + 1))"

definition exit_status :: "(bool \<times> string list) list \<Rightarrow> int" where
  "exit_status results =
     (if results = [] then 1
      else (case count_loop results (0, 0) of (valid_count, invalid_count) \<Rightarrow>
        if invalid_count > 0 then 1 else 0))"

definition main :: "load_outcome list \<Rightarrow> int" where
  "main workflow_files = exit_status (map validate_github_actions_workflow workflow_files)"

subsection \<open>Shapes of documents, used to state the properties\<close>

fun is_mapping :: "pyval \<Rightarrow> bool" where
  "is_mapping (PDict kvs) = True"
| "is_mapping v = False"

text \<open>
  The roots that are not mappings, by what the first two rules do with them: line 21
  (\<^verbatim>\<open>'name' not in workflow\<close>) accepts a sequence, a tuple, a set and a string, so that line
  26 (\<^verbatim>\<open>workflow.keys()\<close>) raises; on every other root line 21 raises, with a text of its
  own for \<^verbatim>\<open>bytes\<close>.
\<close>

fun root_error :: "pyval \<Rightarrow> exn" where
  "root_error (PList xs) = no_attribute (PList xs) ''keys''"
| "root_error (PTuple xs) = no_attribute (PTuple xs) ''keys''"
| "root_error (PSet xs) = no_attribute (PSet xs) ''keys''"
| "root_error (PStr s) = no_attribute (PStr s) ''keys''"
| "root_error (PBytes b) =
     TypeError (''a bytes-like object is required, not '' @ quote @ ''str'' @ quote)"
| "root_error v =
     TypeError (''argument of type '' @ quote @ type_name v @ quote @ '' is not iterable'')"

text \<open>
  A step that is a mapping with a \<^verbatim>\<open>name\<close> and one of \<^verbatim>\<open>uses\<close>, \<^verbatim>\<open>run\<close>; a job that is a
  mapping with \<^verbatim>\<open>runs-on\<close> and a non-empty sequence of such steps under \<^verbatim>\<open>steps\<close>; a
  document that is a mapping with \<^verbatim>\<open>name\<close>, a trigger key (the string \<^verbatim>\<open>on\<close> or the boolean
  \<^verbatim>\<open>True\<close>) and a non-empty mapping of such jobs under \<^verbatim>\<open>jobs\<close>.
\<close>

fun valid_step :: "pyval \<Rightarrow> bool" where
  "valid_step (PDict step) =
     (PStr ''name'' \<in> fst ` set step \<and>
      (PStr ''uses'' \<in> fst ` set step \<or> PStr ''run'' \<in> fst ` set step))"
| "valid_step v = False"

fun valid_job :: "pyval \<Rightarrow> bool" where
  "valid_job (PDict job) =
     (PStr ''runs-on'' \<in> fst ` set job \<and>
      (case map_of job (PStr ''steps'') of
         Some (PList steps) \<Rightarrow> steps \<noteq> [] \<and> list_all valid_step steps
       | _ \<Rightarrow> False))"
| "valid_job v = False"

fun valid_minimal :: "pyval \<Rightarrow> bool" where
  "valid_minimal (PDict workflow) =
     (PStr ''name'' \<in> fst ` set workflow \<and>
      (PStr ''on'' \<in> fst ` set workflow \<or> PBool True \<in> fst ` set workflow) \<and>
      (case map_of workflow (PStr ''jobs'') of
         Some (PDict jobs) \<Rightarrow> jobs \<noteq> [] \<and> list_all (\<lambda>j. valid_job (snd j)) jobs
       | _ \<Rightarrow> False))"
| "valid_minimal v = False"

text \<open>
  In the order of the keys, a trigger key (the string \<^verbatim>\<open>on\<close> or the boolean \<^verbatim>\<open>True\<close>) comes
  before every key whose \<^verbatim>\<open>str()\<close> raises.
\<close>

fun trigger_reached :: "pyval list \<Rightarrow> bool" where
  "trigger_reached [] = False"
| "trigger_reached (key # keys) =
     (key = PStr ''on'' \<or> key = PBool True \<or> (\<not> repr_raises key \<and> trigger_reached keys))"

text \<open>
  The messages about the document itself that a mapping with a \<^verbatim>\<open>jobs\<close> key can receive
  (lines 21-32), in the order the code appends them.
\<close>

definition document_part :: "(pyval \<times> pyval) list \<Rightarrow> string list" where
  "document_part workflow =
     (if PStr ''name'' \<in> fst ` set workflow then [] else [missing_name]) @
     (if has_on_field (map fst workflow) = Inr False then [missing_on] else [])"

text \<open>Appending what a loop body reports to the issues found before it.\<close>

definition extend :: "string list \<Rightarrow> exn + string list \<Rightarrow> exn + string list" where
  "extend acc r = (case r of Inl e \<Rightarrow> Inl e | Inr new \<Rightarrow> Inr (acc @ new))"

section \<open>Properties\<close>

subsection \<open>The loops only append\<close>

lemma extend_simps [simp]:
  "extend acc (Inl e) = Inl e" "extend acc (Inr new) = Inr (acc @ new)"
  by (simp_all add: extend_def)

lemma append_issue_extend: "append_issue (acc @ a) m = extend acc (append_issue a m)"
  by (simp add: append_issue_def split: sum.splits)

lemma check_step_extend: "check_step n i s acc = extend acc (check_step n i s [])"
  using append_issue_extend [of acc "[]"]
  by (auto simp: check_step_def append_issue_def split: sum.splits)

lemma steps_loop_extend: "steps_loop n i xs acc = extend acc (steps_loop n i xs [])"
proof (induction xs arbitrary: i acc)
  case Nil
  show ?case by simp
next
  case (Cons s xs)
  show ?case
  proof (cases "check_step n i s []")
    case (Inl e)
    then show ?thesis using check_step_extend [of n i s acc] by simp
  next
    case (Inr new)
    then have "check_step n i s acc = Inr (acc @ new)"
      using check_step_extend [of n i s acc] by simp
    then show ?thesis
      using Inr Cons.IH [of "Suc i" "acc @ new"] Cons.IH [of "Suc i" new]
      by (simp add: extend_def split: sum.splits)
  qed
qed

lemma steps_loop_extend_append:
  "steps_loop n i xs (acc @ a) = extend acc (steps_loop n i xs a)"
  using steps_loop_extend [of n i xs "acc @ a"] steps_loop_extend [of n i xs a]
  by (simp add: extend_def split: sum.splits)

lemma check_job_extend: "check_job n c acc = extend acc (check_job n c [])"
proof (cases "py_contains ''runs-on'' c")
  case (Inl e)
  then show ?thesis by (simp add: check_job_def)
next
  case (Inr has_runs_on)
  show ?thesis
  proof (cases "has_runs_on \<or> (\<exists>m. job_missing_runs_on n = Inr m)")
    case False
    then obtain e where "job_missing_runs_on n = Inl e" and "\<not> has_runs_on"
      by (cases "job_missing_runs_on n") auto
    with Inr show ?thesis by (simp add: check_job_def append_issue_def)
  next
    case True
    then have "\<exists>a. (if \<not> has_runs_on then append_issue [] (job_missing_runs_on n)
                     else Inr []) = Inr a"
      by (cases has_runs_on) (auto simp: append_issue_def)
    then obtain a where a: "(if \<not> has_runs_on then append_issue [] (job_missing_runs_on n)
                              else Inr []) = Inr a"
      by blast
    then have b: "(if \<not> has_runs_on then append_issue acc (job_missing_runs_on n)
                   else Inr acc) = Inr (acc @ a)"
      by (auto simp: append_issue_def split: if_splits sum.splits)
    show ?thesis
      using Inr a b steps_loop_extend_append [of n 0 _ acc a] append_issue_extend [of acc a]
      by (simp add: check_job_def split: sum.splits)
  qed
qed

lemma jobs_loop_extend: "jobs_loop js acc = extend acc (jobs_loop js [])"
proof (induction js arbitrary: acc)
  case Nil
  show ?case by simp
next
  case (Cons j js)
  obtain n c where j: "j = (n, c)" by (cases j)
  show ?case
  proof (cases "check_job n c []")
    case (Inl e)
    then show ?thesis using check_job_extend [of n c acc] j by simp
  next
    case (Inr new)
    then have "check_job n c acc = Inr (acc @ new)"
      using check_job_extend [of n c acc] by simp
    then show ?thesis
      using Inr j Cons.IH [of "acc @ new"] Cons.IH [of new]
      by (simp add: extend_def split: sum.splits)
  qed
qed

subsection \<open>Every message of a job starts with the job's name\<close>

lemma py_str_text: "py_str v = Inr t \<Longrightarrow> t = py_text v"
  by (simp add: py_str_def split: if_splits)

lemma py_str_error: "py_str v = Inl e \<Longrightarrow> e = int_limit_exceeded"
  by (simp add: py_str_def split: if_splits)

lemma message_prefix:
  "job_missing_runs_on n = Inr m \<Longrightarrow> prefix (job_prefix n) m"
  "job_missing_steps n = Inr m \<Longrightarrow> prefix (job_prefix n) m"
  "step_missing_name n i = Inr m \<Longrightarrow> prefix (job_prefix n) m"
  "step_missing_uses_or_run n s i = Inr m \<Longrightarrow> prefix (job_prefix n) m"
  by (auto simp: job_missing_runs_on_def job_missing_steps_def step_missing_name_def
      step_missing_uses_or_run_def job_prefix_def dest!: py_str_text split: sum.splits)

lemma append_issue_prefix:
  "append_issue a msg = Inr new \<Longrightarrow> \<forall>m. msg = Inr m \<longrightarrow> prefix p m \<Longrightarrow>
   \<forall>m \<in> set a. prefix p m \<Longrightarrow> m \<in> set new \<Longrightarrow> prefix p m"
  by (auto simp: append_issue_def split: sum.splits)

lemma check_step_prefix:
  assumes "check_step n i s [] = Inr new" and "m \<in> set new"
  shows "prefix (job_prefix n) m"
proof -
  have a: "\<And>r. append_issue [] (step_missing_name n i) = Inr r \<Longrightarrow>
             \<forall>m \<in> set r. prefix (job_prefix n) m"
    by (auto simp: append_issue_def message_prefix split: sum.splits)
  have b: "\<And>a r. \<forall>m \<in> set a. prefix (job_prefix n) m \<Longrightarrow>
             append_issue a (step_missing_uses_or_run n s i) = Inr r \<Longrightarrow>
             \<forall>m \<in> set r. prefix (job_prefix n) m"
    by (auto simp: append_issue_def message_prefix split: sum.splits)
  from assms(1) have "\<forall>m \<in> set new. prefix (job_prefix n) m"
    using a b [of "[]"] b
    by (auto simp: check_step_def split: sum.splits if_splits)
  with assms(2) show ?thesis by blast
qed

lemma steps_loop_prefix:
  "steps_loop n i xs [] = Inr new \<Longrightarrow> m \<in> set new \<Longrightarrow> prefix (job_prefix n) m"
proof (induction xs arbitrary: i new)
  case Nil
  then show ?case by simp
next
  case (Cons s xs)
  from Cons.prems(1) obtain a where a: "check_step n i s [] = Inr a"
    and r: "steps_loop n (Suc i) xs a = Inr new"
    by (auto split: sum.splits)
  from r obtain b where b: "steps_loop n (Suc i) xs [] = Inr b" and new: "new = a @ b"
    using steps_loop_extend [of n "Suc i" xs a] by (auto simp: extend_def split: sum.splits)
  from Cons.prems(2) new have "m \<in> set a \<or> m \<in> set b" by simp
  then show ?case
    using check_step_prefix [OF a] Cons.IH [OF b] by blast
qed

lemma check_job_prefix:
  assumes "check_job n c [] = Inr new" and "m \<in> set new"
  shows "prefix (job_prefix n) m"
proof -
  from assms(1) obtain has_runs_on a where
    h: "py_contains ''runs-on'' c = Inr has_runs_on" and
    a: "(if \<not> has_runs_on then append_issue [] (job_missing_runs_on n) else Inr []) = Inr a"
    by (auto simp: check_job_def split: sum.splits)
  have pa: "\<forall>m \<in> set a. prefix (job_prefix n) m"
    using a by (auto simp: append_issue_def message_prefix split: sum.splits if_splits)
  have q: "\<And>xs r. steps_loop n 0 xs a = Inr r \<Longrightarrow> \<forall>m \<in> set r. prefix (job_prefix n) m"
    subgoal for xs r
      using steps_loop_extend [of n 0 xs a] steps_loop_prefix [of n 0 xs] pa
      by (auto simp: extend_def split: sum.splits)
    done
  have s: "\<And>r. append_issue a (job_missing_steps n) = Inr r \<Longrightarrow>
             \<forall>m \<in> set r. prefix (job_prefix n) m"
    using pa by (auto simp: append_issue_def message_prefix split: sum.splits)
  from assms(1) h a have "\<forall>m \<in> set new. prefix (job_prefix n) m"
    using q s by (auto simp: check_job_def split: sum.splits if_splits)
  with assms(2) show ?thesis by blast
qed

lemma job_prefix_not_document:
  "prefix (job_prefix n) m \<Longrightarrow> m \<noteq> missing_name \<and> m \<noteq> missing_on \<and> m \<noteq> missing_jobs"
  by (auto simp: job_prefix_def missing_name_def missing_on_def missing_jobs_def prefix_def)

lemma document_part_not_job:
  "m \<in> set (document_part workflow) \<Longrightarrow> \<not> prefix (job_prefix n) m"
  using job_prefix_not_document [of n m]
  by (auto simp: document_part_def split: if_splits)

subsection \<open>The issues of the jobs, one segment per job\<close>

lemma jobs_loop_segments:
  "jobs_loop js [] = Inr r \<Longrightarrow>
   \<exists>segs. r = concat segs \<and> list_all2 (\<lambda>j seg. check_job (fst j) (snd j) [] = Inr seg) js segs"
proof (induction js arbitrary: r)
  case Nil
  then show ?case by simp
next
  case (Cons j js)
  obtain n c where j: "j = (n, c)" by (cases j)
  from Cons.prems j obtain a where a: "check_job n c [] = Inr a"
    and l: "jobs_loop js a = Inr r"
    by (auto split: sum.splits)
  from l obtain b where b: "jobs_loop js [] = Inr b" and r: "r = a @ b"
    using jobs_loop_extend [of js a] by (auto simp: extend_def split: sum.splits)
  from Cons.IH [OF b] obtain segs where
    s: "b = concat segs" "list_all2 (\<lambda>j seg. check_job (fst j) (snd j) [] = Inr seg) js segs"
    by blast
  have "r = concat (a # segs)" using r s(1) by simp
  moreover have "list_all2 (\<lambda>j seg. check_job (fst j) (snd j) [] = Inr seg) (j # js) (a # segs)"
    using a j s(2) by simp
  ultimately show ?case by blast
qed

lemma jobs_loop_named_segments:
  assumes "jobs_loop js [] = Inr r"
  shows "\<exists>segs. r = concat segs \<and>
           list_all2 (\<lambda>j seg. check_job (fst j) (snd j) [] = Inr seg \<and>
                              (\<forall>m \<in> set seg. prefix (job_prefix (fst j)) m)) js segs"
proof -
  from jobs_loop_segments [OF assms] obtain segs where
    r: "r = concat segs" and s: "list_all2 (\<lambda>j seg. check_job (fst j) (snd j) [] = Inr seg) js segs"
    by blast
  have "list_all2 (\<lambda>j seg. check_job (fst j) (snd j) [] = Inr seg \<and>
                              (\<forall>m \<in> set seg. prefix (job_prefix (fst j)) m)) js segs"
    using s by (rule list_all2_mono) (auto dest: check_job_prefix)
  with r show ?thesis by blast
qed

lemma jobs_loop_prefix:
  assumes l: "jobs_loop js [] = Inr r" and m: "m \<in> set r"
  shows "\<exists>n. prefix (job_prefix n) m"
proof -
  from jobs_loop_segments [OF l] obtain segs where
    r: "r = concat segs" and s: "list_all2 (\<lambda>j seg. check_job (fst j) (snd j) [] = Inr seg) js segs"
    by blast
  from m r obtain seg where seg: "seg \<in> set segs" "m \<in> set seg" by auto
  from seg(1) obtain i where i: "i < length segs" "segs ! i = seg"
    by (auto simp: in_set_conv_nth)
  from s i have "check_job (fst (js ! i)) (snd (js ! i)) [] = Inr seg"
    by (auto simp: list_all2_conv_all_nth)
  from check_job_prefix [OF this seg(2)] show ?thesis by blast
qed

subsection \<open>Keys and the trigger key\<close>

lemma map_of_key: "map_of kvs k = Some v \<Longrightarrow> k \<in> fst ` set kvs"
  by (induction kvs) (auto split: if_splits)

lemma lower_on: "lower ''on'' = ''on''"
  by (simp add: lower_def lower_char_def)

lemma py_str_simps [simp]:
  "py_str (PStr s) = Inr s" "py_str (PBool b) = Inr (if b then ''True'' else ''False'')"
  "py_str PNone = Inr ''None''"
  by (simp_all add: py_str_def)

lemma has_on_field_error: "has_on_field keys = Inl e \<Longrightarrow> e = int_limit_exceeded"
  by (induction keys) (auto dest: py_str_error split: sum.splits if_splits)

text \<open>A key that the loop accepts is in the list: the loop does not end with \<^verbatim>\<open>False\<close>.\<close>

lemma has_on_field_accepts:
  "k \<in> set keys \<Longrightarrow> py_str k = Inr t \<Longrightarrow> lower t = ''on'' \<or> k = PBool True
     \<Longrightarrow> has_on_field keys \<noteq> Inr False"
  by (induction keys) (auto split: sum.splits)

lemma has_on_field_trigger_key:
  "has_on_field (map fst (pre @ (PBool True, v) # post)) =
   has_on_field (map fst (pre @ (PStr ''on'', v) # post))"
  by (induction pre) (auto simp: lower_on split: sum.splits)

lemma trigger_reached_has_on: "trigger_reached keys \<Longrightarrow> has_on_field keys = Inr True"
proof (induction keys)
  case Nil
  then show ?case by simp
next
  case (Cons k keys)
  show ?case
  proof (cases "k = PStr ''on'' \<or> k = PBool True")
    case True
    then show ?thesis by (auto simp: lower_on)
  next
    case False
    with Cons.prems have "\<not> repr_raises k" and "trigger_reached keys" by auto
    with Cons.IH show ?thesis by (simp add: py_str_def)
  qed
qed

lemma names_differ: "missing_name \<noteq> missing_on" "missing_jobs \<noteq> missing_on"
  by (simp_all add: missing_name_def missing_on_def missing_jobs_def)

lemma trigger_accepted:
  assumes "has_on_field (map fst kvs) \<noteq> Inr False"
  shows "missing_on \<notin> set (snd (validate_github_actions_workflow (Loaded (PDict kvs))))"
proof (cases "check_workflow (PDict kvs)")
  case (Inl e)
  then show ?thesis
    by (simp add: validate_github_actions_workflow_def missing_on_def)
next
  case (Inr issues)
  let ?doc = "if PStr ''name'' \<in> fst ` set kvs then [] else [missing_name]"
  from Inr obtain b where "has_on_field (map fst kvs) = Inr b"
    by (cases "has_on_field (map fst kvs)") (auto simp: check_workflow_def Let_def)
  with assms have h: "has_on_field (map fst kvs) = Inr True"
    by (cases b) auto
  have "missing_on \<notin> set issues"
  proof (cases "PStr ''jobs'' \<in> fst ` set kvs")
    case False
    with Inr h show ?thesis
      by (auto simp: check_workflow_def Let_def names_differ [symmetric] names_differ
          split: if_splits)
  next
    case True
    from True Inr h obtain jobs items where
      "py_getitem (PDict kvs) ''jobs'' = Inr jobs" "py_items jobs = Inr items"
      and l: "jobs_loop items ?doc = Inr issues"
      by (auto simp: check_workflow_def Let_def split: sum.splits if_splits)
    from l obtain r where r: "jobs_loop items [] = Inr r" and i: "issues = ?doc @ r"
      using jobs_loop_extend [of items ?doc] by (auto simp: extend_def split: sum.splits)
    have "missing_on \<notin> set r"
      using jobs_loop_prefix [OF r] job_prefix_not_document by blast
    with i show ?thesis by (simp add: names_differ [symmetric] names_differ)
  qed
  with Inr show ?thesis by (simp add: validate_github_actions_workflow_def)
qed

lemma check_workflow_trigger_key:
  "check_workflow (PDict (pre @ (PBool True, v) # post)) =
   check_workflow (PDict (pre @ (PStr ''on'', v) # post))"
proof -
  have n: "py_contains ''name'' (PDict (pre @ (PBool True, v) # post)) =
           py_contains ''name'' (PDict (pre @ (PStr ''on'', v) # post))"
    by simp
  have j: "py_contains ''jobs'' (PDict (pre @ (PBool True, v) # post)) =
           py_contains ''jobs'' (PDict (pre @ (PStr ''on'', v) # post))"
    by simp
  have g: "py_getitem (PDict (pre @ (PBool True, v) # post)) ''jobs'' =
           py_getitem (PDict (pre @ (PStr ''on'', v) # post)) ''jobs''"
    by (simp add: map_add_def split: option.splits)
  show ?thesis
    unfolding check_workflow_def
    by (simp only: n j g py_keys.simps sum.case has_on_field_trigger_key [of pre v post])
qed

subsection \<open>Documents that pass\<close>

lemma valid_step_ok: "valid_step s \<Longrightarrow> check_step n i s acc = Inr acc"
  by (cases s) (auto simp: check_step_def)

lemma valid_steps_ok: "list_all valid_step xs \<Longrightarrow> steps_loop n i xs acc = Inr acc"
  by (induction xs arbitrary: i) (simp_all add: valid_step_ok)

lemma valid_job_ok: "valid_job c \<Longrightarrow> check_job n c acc = Inr acc"
proof (cases c)
  case (PDict job)
  assume v: "valid_job c"
  with PDict obtain steps where s: "map_of job (PStr ''steps'') = Some (PList steps)"
      and a: "list_all valid_step steps" and r: "PStr ''runs-on'' \<in> fst ` set job"
    by (auto split: option.splits pyval.splits)
  show ?thesis
    using PDict s r map_of_key [OF s] valid_steps_ok [OF a]
    by (simp add: check_job_def)
qed simp_all

lemma valid_jobs_ok: "list_all (\<lambda>j. valid_job (snd j)) js \<Longrightarrow> jobs_loop js acc = Inr acc"
  by (induction js) (auto simp: valid_job_ok)

subsection \<open>Counting the invalid files\<close>

lemma count_loop_invalid:
  "snd (count_loop rs (v, i)) = i + length (filter (\<lambda>r. \<not> (fst r \<and> snd r = [])) rs)"
  by (induction rs arbitrary: v i) auto

section \<open>The claims\<close>

subsection \<open>C1: a \<^verbatim>\<open>jobs\<close> value that is not a mapping\<close>

text \<open>
  Claim C1, as the code has it. For every mapping document whose \<^verbatim>\<open>jobs\<close> key maps to a
  value that is not a mapping, the function returns the error result, \<^verbatim>\<open>False\<close> with exactly
  one message, and the issues accumulated so far are dropped. When the loop over the keys
  of lines 26-29 ends without raising, the call \<^verbatim>\<open>workflow['jobs'].items()\<close> of line 39
  raises \<^verbatim>\<open>AttributeError\<close> and the message is
  \<^verbatim>\<open>Error reading file: '<type>' object has no attribute 'items'\<close>; when \<^verbatim>\<open>str(key)\<close> raises in
  that loop (an integer key of more than 4300 digits, met before a key is accepted), the
  message is \<^verbatim>\<open>Error reading file:\<close> followed by the text of that \<^verbatim>\<open>ValueError\<close>. No
  exception leaves the function, and the result is never \<^verbatim>\<open>(True, issues)\<close>.
\<close>

theorem jobs_not_mapping_error_result:
  assumes "map_of kvs (PStr ''jobs'') = Some v" and "\<not> is_mapping v"
  shows "validate_github_actions_workflow (Loaded (PDict kvs)) =
           (False, [''Error reading file: '' @
              (case has_on_field (map fst kvs) of
                 Inl e \<Rightarrow> str_exn int_limit_exceeded
               | Inr has_on \<Rightarrow> quote @ type_name v @ quote @
                    '' object has no attribute '' @ quote @ ''items'' @ quote)])"
proof (cases "has_on_field (map fst kvs)")
  case (Inl e)
  then have "e = int_limit_exceeded" by (rule has_on_field_error)
  with Inl show ?thesis
    by (simp add: validate_github_actions_workflow_def check_workflow_def Let_def)
next
  case (Inr has_on)
  have k: "PStr ''jobs'' \<in> fst ` set kvs" using assms(1) by (rule map_of_key)
  have i: "py_items v = Inl (no_attribute v ''items'')" using assms(2) by (cases v) simp_all
  show ?thesis
    using Inr k i assms(1)
    by (simp add: validate_github_actions_workflow_def check_workflow_def Let_def no_attribute_def)
qed

theorem jobs_not_mapping_error_result_witness:
  "map_of [(PStr ''name'', PStr ''CI''), (PStr ''jobs'', PInt 3)] (PStr ''jobs'') = Some (PInt 3) \<and>
   \<not> is_mapping (PInt 3) \<and>
   validate_github_actions_workflow
     (Loaded (PDict [(PStr ''name'', PStr ''CI''), (PStr ''jobs'', PInt 3)])) =
     (False, [''Error reading file: '' @ quote @ ''int'' @ quote @
              '' object has no attribute '' @ quote @ ''items'' @ quote])"
  using jobs_not_mapping_error_result [of "[(PStr ''name'', PStr ''CI''), (PStr ''jobs'', PInt 3)]" "PInt 3"]
  by (simp add: lower_def lower_char_def)

text \<open>
  The claim as written fails when \<^verbatim>\<open>jobs\<close> is an empty sequence in an otherwise complete
  document: the result is the error result, not \<^verbatim>\<open>(True, issues)\<close>.
\<close>

theorem jobs_sequence_counterexample:
  "validate_github_actions_workflow
     (Loaded (PDict [(PStr ''name'', PStr ''CI''), (PStr ''on'', PStr ''push''),
                     (PStr ''jobs'', PList [])])) =
   (False, [''Error reading file: '' @ quote @ ''list'' @ quote @
            '' object has no attribute '' @ quote @ ''items'' @ quote])"
  by (simp add: validate_github_actions_workflow_def check_workflow_def Let_def no_attribute_def
      lower_def lower_char_def)

subsection \<open>C2: a root that is not a mapping\<close>

text \<open>
  Claim C2, as the code has it. For every loaded document whose root is not a mapping, the
  function returns \<^verbatim>\<open>False\<close> with exactly one message and no other issue: \<^verbatim>\<open>Error reading file:\<close>
  followed by the text of the exception that the first rules raise. For a sequence, a
  tuple, a set and a string, line 21 passes and \<^verbatim>\<open>workflow.keys()\<close> on line 26 raises
  \<^verbatim>\<open>AttributeError\<close>, \<^verbatim>\<open>'<type>' object has no attribute 'keys'\<close>. For \<^verbatim>\<open>bytes\<close>, line 21 raises
  \<^verbatim>\<open>TypeError\<close>, \<^verbatim>\<open>a bytes-like object is required, not 'str'\<close>. For every other root (null,
  boolean, number, date), line 21 raises \<^verbatim>\<open>TypeError\<close>,
  \<^verbatim>\<open>argument of type '<type>' is not iterable\<close>.
\<close>

theorem root_not_mapping_error_result:
  assumes "\<not> is_mapping w"
  shows "validate_github_actions_workflow (Loaded w) =
           (False, [''Error reading file: '' @ str_exn (root_error w)])"
  using assms
  by (cases w) (simp_all add: validate_github_actions_workflow_def check_workflow_def)

theorem root_not_mapping_error_result_witness:
  "\<not> is_mapping PNone \<and> \<not> is_mapping (PStr ''name'') \<and> \<not> is_mapping (PBytes ''name'') \<and>
   validate_github_actions_workflow (Loaded PNone) =
     (False, [''Error reading file: argument of type '' @ quote @ ''NoneType'' @ quote @
              '' is not iterable'']) \<and>
   validate_github_actions_workflow (Loaded (PStr ''name'')) =
     (False, [''Error reading file: '' @ quote @ ''str'' @ quote @
              '' object has no attribute '' @ quote @ ''keys'' @ quote]) \<and>
   validate_github_actions_workflow (Loaded (PBytes ''name'')) =
     (False, [''Error reading file: a bytes-like object is required, not '' @ quote @ ''str'' @ quote])"
  using root_not_mapping_error_result [of PNone] root_not_mapping_error_result [of "PStr ''name''"]
    root_not_mapping_error_result [of "PBytes ''name''"]
  by (simp add: no_attribute_def)

text \<open>
  The claim as written fails at the empty sequence: the one message is not
  \<^verbatim>\<open>root must be a mapping\<close>, a text the script does not contain.
\<close>

theorem root_sequence_counterexample:
  "validate_github_actions_workflow (Loaded (PList [])) =
     (False, [''Error reading file: '' @ quote @ ''list'' @ quote @
              '' object has no attribute '' @ quote @ ''keys'' @ quote]) \<and>
   snd (validate_github_actions_workflow (Loaded (PList []))) \<noteq> [''root must be a mapping'']"
  by (simp add: validate_github_actions_workflow_def check_workflow_def Let_def no_attribute_def)

subsection \<open>C3: a valid minimal document\<close>

text \<open>
  Claim C3, as the code has it. For every document that is a mapping with a \<^verbatim>\<open>name\<close> key, a
  trigger key (the string \<^verbatim>\<open>on\<close> or the boolean \<^verbatim>\<open>True\<close>) that comes, in the order of the keys,
  before every key whose \<^verbatim>\<open>str()\<close> raises (an integer key of more than 4300 digits), and a
  \<^verbatim>\<open>jobs\<close> mapping with at least one job, where every job is a mapping with \<^verbatim>\<open>runs-on\<close> and a
  \<^verbatim>\<open>steps\<close> sequence of at least one step, and every step is a mapping with \<^verbatim>\<open>name\<close> and one
  of \<^verbatim>\<open>uses\<close>, \<^verbatim>\<open>run\<close>: the result is \<^verbatim>\<open>(True, [])\<close>.
\<close>

theorem valid_minimal_no_issues:
  assumes "valid_minimal (PDict w)" and "trigger_reached (map fst w)"
  shows "validate_github_actions_workflow (Loaded (PDict w)) = (True, [])"
proof -
  from assms(1) obtain jobs where j: "map_of w (PStr ''jobs'') = Some (PDict jobs)"
      and a: "list_all (\<lambda>j. valid_job (snd j)) jobs" and n: "PStr ''name'' \<in> fst ` set w"
    by (auto split: option.splits pyval.splits)
  have h: "has_on_field (map fst w) = Inr True"
    using assms(2) by (rule trigger_reached_has_on)
  show ?thesis
    using j n h map_of_key [OF j] valid_jobs_ok [OF a]
    by (simp add: validate_github_actions_workflow_def check_workflow_def Let_def)
qed

theorem valid_minimal_no_issues_witness:
  "valid_minimal (PDict [(PStr ''name'', PStr ''CI''), (PBool True, PStr ''push''),
      (PStr ''jobs'', PDict [(PStr ''build'', PDict [(PStr ''runs-on'', PStr ''ubuntu-latest''),
         (PStr ''steps'', PList [PDict [(PStr ''name'', PStr ''Checkout''),
            (PStr ''uses'', PStr ''actions/checkout@v4'')]])])])]) \<and>
   trigger_reached (map fst [(PStr ''name'', PStr ''CI''), (PBool True, PStr ''push''),
      (PStr ''jobs'', PDict [(PStr ''build'', PDict [(PStr ''runs-on'', PStr ''ubuntu-latest''),
         (PStr ''steps'', PList [PDict [(PStr ''name'', PStr ''Checkout''),
            (PStr ''uses'', PStr ''actions/checkout@v4'')]])])])]) \<and>
   validate_github_actions_workflow (Loaded (PDict [(PStr ''name'', PStr ''CI''), (PBool True, PStr ''push''),
      (PStr ''jobs'', PDict [(PStr ''build'', PDict [(PStr ''runs-on'', PStr ''ubuntu-latest''),
         (PStr ''steps'', PList [PDict [(PStr ''name'', PStr ''Checkout''),
            (PStr ''uses'', PStr ''actions/checkout@v4'')]])])])])) = (True, [])"
  using valid_minimal_no_issues [of "[(PStr ''name'', PStr ''CI''), (PBool True, PStr ''push''),
      (PStr ''jobs'', PDict [(PStr ''build'', PDict [(PStr ''runs-on'', PStr ''ubuntu-latest''),
         (PStr ''steps'', PList [PDict [(PStr ''name'', PStr ''Checkout''),
            (PStr ''uses'', PStr ''actions/checkout@v4'')]])])])]"]
  by simp

text \<open>
  The claim as written fails at a document of the stated shape whose first key is the
  integer \<open>10 ^ 4300\<close>, of 4301 digits: \<^verbatim>\<open>str(key)\<close> raises on line 27 before the loop comes
  to the trigger key, and the result is the error result.
\<close>

theorem valid_minimal_long_int_key_counterexample:
  "valid_minimal (PDict [(PInt int_str_bound, PStr ''x''), (PStr ''name'', PStr ''CI''), (PStr ''on'', PStr ''push''),
      (PStr ''jobs'', PDict [(PStr ''build'', PDict [(PStr ''runs-on'', PStr ''ubuntu-latest''),
         (PStr ''steps'', PList [PDict [(PStr ''name'', PStr ''Checkout''),
            (PStr ''uses'', PStr ''actions/checkout@v4'')]])])])]) \<and>
   validate_github_actions_workflow (Loaded (PDict [(PInt int_str_bound, PStr ''x''), (PStr ''name'', PStr ''CI''), (PStr ''on'', PStr ''push''),
      (PStr ''jobs'', PDict [(PStr ''build'', PDict [(PStr ''runs-on'', PStr ''ubuntu-latest''),
         (PStr ''steps'', PList [PDict [(PStr ''name'', PStr ''Checkout''),
            (PStr ''uses'', PStr ''actions/checkout@v4'')]])])])])) =
     (False, [''Error reading file: Exceeds the limit (4300 digits) for integer string conversion; '' @
              ''use sys.set_int_max_str_digits() to increase the limit''])"
proof -
  have p: "py_str (PInt int_str_bound) = Inl int_limit_exceeded"
    by (simp add: py_str_def abs_ge_self)
  show ?thesis
    by (simp add: validate_github_actions_workflow_def check_workflow_def p int_limit_exceeded_def)
qed

subsection \<open>C4: the empty mapping\<close>

text \<open>
  Claim C4. For the empty mapping the result is \<^verbatim>\<open>True\<close> with exactly the three messages
  \<^verbatim>\<open>Missing 'name' field\<close>, \<^verbatim>\<open>Missing 'on' field (triggers)\<close>, \<^verbatim>\<open>Missing 'jobs' field\<close>, in
  this order.
\<close>

theorem empty_mapping_three_issues:
  "validate_github_actions_workflow (Loaded (PDict [])) =
     (True, [''Missing 'name' field'', ''Missing 'on' field (triggers)'', ''Missing 'jobs' field''])"
  by (simp add: validate_github_actions_workflow_def check_workflow_def
      missing_name_def missing_on_def missing_jobs_def)

subsection \<open>C5: a mapping without \<^verbatim>\<open>jobs\<close>\<close>

text \<open>
  Claim C5, as the code has it. For every mapping document without a \<^verbatim>\<open>jobs\<close> key, when
  the loop over the keys of lines 26-29 ends without raising, the result is \<^verbatim>\<open>True\<close> with
  one to three messages, all about the document: \<^verbatim>\<open>Missing 'name' field\<close> exactly when
  there is no \<^verbatim>\<open>name\<close> key, then \<^verbatim>\<open>Missing 'on' field (triggers)\<close> exactly when the loop
  accepts no key, then always \<^verbatim>\<open>Missing 'jobs' field\<close>; no message about a job or a step
  is reported. When \<^verbatim>\<open>str(key)\<close> raises in that loop (an integer key of more than 4300
  digits, met before a key is accepted), the result is \<^verbatim>\<open>False\<close> with the single message
  \<^verbatim>\<open>Error reading file:\<close> followed by the text of that \<^verbatim>\<open>ValueError\<close>.
\<close>

theorem jobs_missing_document_issues_only:
  assumes "PStr ''jobs'' \<notin> fst ` set kvs"
  shows "validate_github_actions_workflow (Loaded (PDict kvs)) =
           (case has_on_field (map fst kvs) of
              Inl e \<Rightarrow> (False, [''Error reading file: '' @ str_exn int_limit_exceeded])
            | Inr has_on \<Rightarrow>
                (True, (if PStr ''name'' \<in> fst ` set kvs then [] else [missing_name]) @
                       (if has_on then [] else [missing_on]) @ [missing_jobs]))"
proof (cases "has_on_field (map fst kvs)")
  case (Inl e)
  then have "e = int_limit_exceeded" by (rule has_on_field_error)
  with Inl show ?thesis
    by (simp add: validate_github_actions_workflow_def check_workflow_def Let_def)
next
  case (Inr has_on)
  with assms show ?thesis
    by (simp add: validate_github_actions_workflow_def check_workflow_def Let_def)
qed

theorem jobs_missing_document_issues_only_witness:
  "PStr ''jobs'' \<notin> fst ` set [(PStr ''name'', PStr ''CI''), (PStr ''on'', PStr ''push'')] \<and>
   validate_github_actions_workflow
     (Loaded (PDict [(PStr ''name'', PStr ''CI''), (PStr ''on'', PStr ''push'')])) =
     (True, [missing_jobs])"
  using jobs_missing_document_issues_only [of "[(PStr ''name'', PStr ''CI''), (PStr ''on'', PStr ''push'')]"]
  by (simp add: lower_def lower_char_def)

text \<open>
  The claim as written fails at a document with a \<^verbatim>\<open>name\<close> and nothing else: two messages
  about the document, not one.
\<close>

theorem jobs_missing_two_issues_counterexample:
  "snd (validate_github_actions_workflow (Loaded (PDict [(PStr ''name'', PStr ''CI'')]))) =
     [missing_on, missing_jobs] \<and>
   length (snd (validate_github_actions_workflow (Loaded (PDict [(PStr ''name'', PStr ''CI'')])))) \<noteq> 1"
  by (simp add: validate_github_actions_workflow_def check_workflow_def Let_def
      lower_def lower_char_def)

subsection \<open>C6: the trigger key as \<^verbatim>\<open>True\<close> and as \<^verbatim>\<open>'on'\<close>\<close>

text \<open>
  Claim C6. Two mapping documents that differ only in one key, the boolean \<^verbatim>\<open>True\<close> in one
  and the string \<^verbatim>\<open>on\<close> in the other (same position, same value), get the same result, and
  neither result contains \<^verbatim>\<open>Missing 'on' field (triggers)\<close>.
\<close>

theorem boolean_trigger_equivalence:
  "validate_github_actions_workflow (Loaded (PDict (pre @ (PBool True, v) # post))) =
   validate_github_actions_workflow (Loaded (PDict (pre @ (PStr ''on'', v) # post))) \<and>
   missing_on \<notin> set (snd (validate_github_actions_workflow
                            (Loaded (PDict (pre @ (PBool True, v) # post))))) \<and>
   missing_on \<notin> set (snd (validate_github_actions_workflow
                            (Loaded (PDict (pre @ (PStr ''on'', v) # post)))))"
proof -
  have "has_on_field (map fst (pre @ (PBool True, v) # post)) \<noteq> Inr False"
    by (rule has_on_field_accepts [of "PBool True" _ "''True''"]) simp_all
  moreover have "has_on_field (map fst (pre @ (PStr ''on'', v) # post)) \<noteq> Inr False"
    by (rule has_on_field_accepts [of "PStr ''on''" _ "''on''"]) (simp_all add: lower_on)
  ultimately show ?thesis
    using check_workflow_trigger_key [of pre v post] trigger_accepted
    by (simp add: validate_github_actions_workflow_def)
qed

theorem boolean_trigger_equivalence_witness:
  "validate_github_actions_workflow
     (Loaded (PDict ([(PStr ''name'', PStr ''CI'')] @ (PBool True, PStr ''push'') # []))) =
   validate_github_actions_workflow
     (Loaded (PDict ([(PStr ''name'', PStr ''CI'')] @ (PStr ''on'', PStr ''push'') # []))) \<and>
   validate_github_actions_workflow
     (Loaded (PDict ([(PStr ''name'', PStr ''CI'')] @ (PBool True, PStr ''push'') # []))) =
   (True, [missing_jobs])"
  using boolean_trigger_equivalence [of "[(PStr ''name'', PStr ''CI'')]" "PStr ''push''" "[]"]
  by (simp add: validate_github_actions_workflow_def check_workflow_def lower_def lower_char_def)

subsection \<open>C7: the order of the issues\<close>

text \<open>
  Claim C7. For every mapping document whose \<^verbatim>\<open>jobs\<close> key maps to a mapping, either an
  exception was raised and the result is the single error message, or the issues are the
  messages about the document followed by one segment per job, the segments in the order
  in which the jobs are declared: the segment of a job is what the loop body reports for
  this job alone, each of its messages starts with \<^verbatim>\<open>Job '<name>'\<close> for this job's name, and
  no message about the document starts like that.
\<close>

theorem issues_in_declaration_order:
  assumes "map_of workflow (PStr ''jobs'') = Some (PDict jobs)"
  shows "(\<exists>e. validate_github_actions_workflow (Loaded (PDict workflow)) =
               (False, [''Error reading file: '' @ str_exn e])) \<or>
         (\<exists>segs. validate_github_actions_workflow (Loaded (PDict workflow)) =
                    (True, document_part workflow @ concat segs) \<and>
                  (\<forall>m \<in> set (document_part workflow). \<forall>n. \<not> prefix (job_prefix n) m) \<and>
                  list_all2 (\<lambda>j seg. check_job (fst j) (snd j) [] = Inr seg \<and>
                                     (\<forall>m \<in> set seg. prefix (job_prefix (fst j)) m)) jobs segs)"
proof (cases "check_workflow (PDict workflow)")
  case (Inl e)
  then have "validate_github_actions_workflow (Loaded (PDict workflow)) =
      (False, [''Error reading file: '' @ str_exn e])"
    by (simp add: validate_github_actions_workflow_def)
  then show ?thesis by blast
next
  case (Inr issues)
  have k: "PStr ''jobs'' \<in> fst ` set workflow" using assms by (rule map_of_key)
  from Inr obtain b where b: "has_on_field (map fst workflow) = Inr b"
    by (cases "has_on_field (map fst workflow)") (auto simp: check_workflow_def Let_def)
  from Inr k assms b have l: "jobs_loop jobs (document_part workflow) = Inr issues"
    by (cases b) (simp_all add: check_workflow_def Let_def document_part_def split: if_splits)
  then obtain r where r: "jobs_loop jobs [] = Inr r" and i: "issues = document_part workflow @ r"
    using jobs_loop_extend [of jobs "document_part workflow"]
    by (auto simp: extend_def split: sum.splits)
  from jobs_loop_named_segments [OF r] obtain segs where
    s: "r = concat segs"
       "list_all2 (\<lambda>j seg. check_job (fst j) (snd j) [] = Inr seg \<and>
                          (\<forall>m \<in> set seg. prefix (job_prefix (fst j)) m)) jobs segs"
    by blast
  have "validate_github_actions_workflow (Loaded (PDict workflow)) =
          (True, document_part workflow @ concat segs)"
    using Inr i s(1) by (simp add: validate_github_actions_workflow_def)
  with s(2) document_part_not_job show ?thesis by blast
qed

theorem issues_in_declaration_order_witness:
  "map_of [(PStr ''jobs'', PDict [(PStr ''B'', PDict []), (PStr ''A'', PDict [])])] (PStr ''jobs'') = Some (PDict [(PStr ''B'', PDict []), (PStr ''A'', PDict [])]) \<and>
   validate_github_actions_workflow (Loaded (PDict [(PStr ''jobs'', PDict [(PStr ''B'', PDict []), (PStr ''A'', PDict [])])])) =
     (True, [missing_name, missing_on,
             job_prefix (PStr ''B'') @ '' missing 'runs-on' field'',
             job_prefix (PStr ''B'') @ '' missing 'steps' field'',
             job_prefix (PStr ''A'') @ '' missing 'runs-on' field'',
             job_prefix (PStr ''A'') @ '' missing 'steps' field'']) \<and>
   ((\<exists>e. validate_github_actions_workflow (Loaded (PDict [(PStr ''jobs'', PDict [(PStr ''B'', PDict []), (PStr ''A'', PDict [])])])) =
               (False, [''Error reading file: '' @ str_exn e])) \<or>
    (\<exists>segs. validate_github_actions_workflow (Loaded (PDict [(PStr ''jobs'', PDict [(PStr ''B'', PDict []), (PStr ''A'', PDict [])])])) =
              (True, document_part [(PStr ''jobs'', PDict [(PStr ''B'', PDict []), (PStr ''A'', PDict [])])] @ concat segs) \<and>
            (\<forall>m \<in> set (document_part [(PStr ''jobs'', PDict [(PStr ''B'', PDict []), (PStr ''A'', PDict [])])]). \<forall>n. \<not> prefix (job_prefix n) m) \<and>
            list_all2 (\<lambda>j seg. check_job (fst j) (snd j) [] = Inr seg \<and>
                               (\<forall>m \<in> set seg. prefix (job_prefix (fst j)) m))
              [(PStr ''B'', PDict []), (PStr ''A'', PDict [])] segs))"
proof -
  have v: "validate_github_actions_workflow (Loaded (PDict [(PStr ''jobs'', PDict [(PStr ''B'', PDict []), (PStr ''A'', PDict [])])])) =
     (True, [missing_name, missing_on,
             job_prefix (PStr ''B'') @ '' missing 'runs-on' field'',
             job_prefix (PStr ''B'') @ '' missing 'steps' field'',
             job_prefix (PStr ''A'') @ '' missing 'runs-on' field'',
             job_prefix (PStr ''A'') @ '' missing 'steps' field''])"
    by (simp add: validate_github_actions_workflow_def check_workflow_def check_job_def Let_def
        append_issue_def job_missing_runs_on_def job_missing_steps_def job_prefix_def
        lower_def lower_char_def)
  show ?thesis
    using issues_in_declaration_order [of "[(PStr ''jobs'', PDict [(PStr ''B'', PDict []), (PStr ''A'', PDict [])])]" "[(PStr ''B'', PDict []), (PStr ''A'', PDict [])]"] v
    by simp
qed

subsection \<open>C8: the exit status\<close>

text \<open>
  Claim C8. For every sequence of per-file results the exit status is 0 exactly when the
  sequence is not empty (at least one file was found) and every result is \<^verbatim>\<open>True\<close> with no
  issue; it is 1 otherwise, also when no file was found.
\<close>

theorem exit_status_zero_iff:
  "exit_status results =
     (if results \<noteq> [] \<and> (\<forall>r \<in> set results. fst r \<and> snd r = []) then 0 else 1)"
proof -
  have "snd (count_loop results (0, 0)) = 0 \<longleftrightarrow> (\<forall>r \<in> set results. fst r \<and> snd r = [])"
    unfolding count_loop_invalid by (auto simp: filter_empty_conv)
  then show ?thesis
    by (auto simp: exit_status_def split: prod.splits)
qed

theorem exit_status_zero_iff_witness:
  "exit_status [(True, []), (True, [])] = 0 \<and> exit_status [] = 1 \<and>
   exit_status [(True, []), (True, [''Missing 'jobs' field''])] = 1 \<and>
   exit_status [(False, [''YAML syntax error: x''])] = 1"
  using exit_status_zero_iff [of "[(True, []), (True, [])]"] exit_status_zero_iff [of "[]"]
    exit_status_zero_iff [of "[(True, []), (True, [''Missing 'jobs' field''])]"]
    exit_status_zero_iff [of "[(False, [''YAML syntax error: x''])]"]
  by simp

subsection \<open>C9: the trigger key in any letter case\<close>

text \<open>
  Claim C9. For every mapping document with a key whose \<^verbatim>\<open>str()\<close> text lowercases to \<^verbatim>\<open>on\<close>,
  the result does not contain \<^verbatim>\<open>Missing 'on' field (triggers)\<close>. The key \<^verbatim>\<open>ON\<close>, which is
  neither the string \<^verbatim>\<open>on\<close> nor the boolean \<^verbatim>\<open>True\<close>, is such a key.
\<close>

theorem case_insensitive_trigger:
  assumes "k \<in> fst ` set kvs" and "py_str k = Inr t" and "lower t = ''on''"
  shows "missing_on \<notin> set (snd (validate_github_actions_workflow (Loaded (PDict kvs))))"
  using assms by (intro trigger_accepted has_on_field_accepts [of k _ t]) simp_all

theorem case_insensitive_trigger_witness:
  "PStr ''ON'' \<in> fst ` set [(PStr ''ON'', PStr ''push'')] \<and> py_str (PStr ''ON'') = Inr ''ON'' \<and>
   lower ''ON'' = ''on'' \<and> PStr ''ON'' \<noteq> PStr ''on'' \<and> PStr ''ON'' \<noteq> PBool True \<and>
   missing_on \<notin> set (snd (validate_github_actions_workflow
                            (Loaded (PDict [(PStr ''ON'', PStr ''push'')]))))"
proof -
  have l: "lower ''ON'' = ''on''" by code_simp
  show ?thesis
    using l case_insensitive_trigger [of "PStr ''ON''" "[(PStr ''ON'', PStr ''push'')]" "''ON''"]
    by simp
qed

subsection \<open>C10: a job with no steps\<close>

text \<open>
  Claim C10. For every job that is a mapping whose \<^verbatim>\<open>steps\<close> key maps to the empty sequence,
  the loop body adds no message about a step and no message about \<^verbatim>\<open>steps\<close>: when the job
  has a \<^verbatim>\<open>runs-on\<close> key the issues are unchanged, and otherwise the only thing done is the
  \<^verbatim>\<open>append\<close> of \<^verbatim>\<open>Job '<name>' missing 'runs-on' field\<close> of line 41.
\<close>

theorem empty_steps_pass_silently:
  assumes "map_of job (PStr ''steps'') = Some (PList [])"
  shows "check_job job_name (PDict job) issues =
           (if PStr ''runs-on'' \<in> fst ` set job then Inr issues
            else append_issue issues (job_missing_runs_on job_name))"
  using assms map_of_key [OF assms]
  by (simp add: check_job_def append_issue_def split: sum.splits)

theorem empty_steps_pass_silently_witness:
  "map_of [(PStr ''runs-on'', PStr ''ubuntu-latest''), (PStr ''steps'', PList [])] (PStr ''steps'') =
     Some (PList []) \<and>
   check_job (PStr ''build'')
     (PDict [(PStr ''runs-on'', PStr ''ubuntu-latest''), (PStr ''steps'', PList [])]) [] = Inr [] \<and>
   check_job (PStr ''build'') (PDict [(PStr ''steps'', PList [])]) [] =
     Inr [''Job '' @ quote @ ''build'' @ quote @ '' missing 'runs-on' field'']"
  using empty_steps_pass_silently [of "[(PStr ''runs-on'', PStr ''ubuntu-latest''), (PStr ''steps'', PList [])]"
      "PStr ''build''" "[]"]
    empty_steps_pass_silently [of "[(PStr ''steps'', PList [])]" "PStr ''build''" "[]"]
  by (simp add: append_issue_def job_missing_runs_on_def)

end
